theory Spec2Isabelle
  imports Main
begin

section \<open>unicornherder: the Herder and its reload handover\<close>

text \<open>
  A shallow embedding of \<^verbatim>\<open>unicornherder/herder.py\<close>. A \<^verbatim>\<open>Herder\<close> object is a
  record that is passed in and returned updated. Everything outside the object (the
  wall clock, the pidfile, the process table, the module-level set
  \<^verbatim>\<open>MANAGED_PIDS\<close>, and the effects the supervisor has on the outside) lives in a
  second record, the world. An exception is the \<open>Inl\<close> of a sum.
\<close>

subsection \<open>Values\<close>

text \<open>
  PIDs are natural numbers (a pidfile holds one PID as text). Durations are whole
  seconds: the defaults are 180 and the command line parses them as integers. The
  budgets handed to the deadline and \<^verbatim>\<open>pidfile_timeout\<close> are natural numbers;
  \<^verbatim>\<open>overlap\<close>, which goes to \<^verbatim>\<open>time.sleep\<close>, is any integer.
\<close>

type_synonym pid = nat

datatype signal =
  SIGHUP | SIGINT | SIGQUIT | SIGTERM | SIGTTIN | SIGTTOU | SIGUSR1 | SIGUSR2 | SIGWINCH

datatype arg = S string | N int

text \<open>An exception; a HerderError keeps the format string of its message and the arguments.\<close>

datatype error =
  HerderError string "arg list"
  | KeyError string
  | NoSuchProcess pid
  | OSError nat
  | ValueError
  | IndexError
  | TimeoutError

datatype level = Debug | Info | Warn | Error

text \<open>
  What the supervisor does to the outside, in the order it does it. A log record keeps
  its format string and its arguments. \<open>SendSignal\<close> records a call of
  \<^verbatim>\<open>send_signal\<close> (or \<^verbatim>\<open>terminate\<close>), whether or not the target still exists.
\<close>

datatype event =
  Log level string "arg list"
  | Sleep nat
  | SendSignal pid signal
  | Install signal

subsection \<open>The command table\<close>

text \<open>
  A command template is the text of the Python format string cut at its replacement
  fields: \<^verbatim>\<open>'unicorn -D -P "{pidfile}" {args}'\<close> is a literal, the field
  \<^verbatim>\<open>pidfile\<close>, a literal, and the field \<^verbatim>\<open>args\<close>.
\<close>

datatype piece = Lit string | Field string

definition COMMANDS :: "(string \<times> piece list) list" where
  "COMMANDS =
    [(''unicorn'', [Lit ''unicorn -D -P \"'', Field ''pidfile'', Lit ''\" '', Field ''args'']),
     (''unicorn_rails'', [Lit ''unicorn_rails -D '', Field ''args'']),
     (''unicorn_bin'', [Field ''unicorn_bin'', Lit '' -D -P \"'', Field ''pidfile'', Lit ''\" '',
        Field ''args'']),
     (''gunicorn'', [Lit ''gunicorn -D -p \"'', Field ''pidfile'', Lit ''\" '', Field ''args'']),
     (''gunicorn_django'', [Lit ''gunicorn_django -D -p \"'', Field ''pidfile'', Lit ''\" '',
        Field ''args'']),
     (''gunicorn_bin'', [Field ''gunicorn_bin'', Lit '' -D -p \"'', Field ''pidfile'', Lit ''\" '',
        Field ''args''])]"

text \<open>\<^verbatim>\<open>str.format\<close> with keyword arguments: a field with no argument is a KeyError.\<close>

fun format :: "piece list \<Rightarrow> (string \<times> string) list \<Rightarrow> error + string" where
  "format [] kw = Inr []"
| "format (Lit s # ps) kw =
     (case format ps kw of Inl e \<Rightarrow> Inl e | Inr r \<Rightarrow> Inr (s @ r))"
| "format (Field f # ps) kw =
     (case map_of kw f of
        None \<Rightarrow> Inl (KeyError f)
      | Some v \<Rightarrow> (case format ps kw of Inl e \<Rightarrow> Inl e | Inr r \<Rightarrow> Inr (v @ r)))"

subsection \<open>The Herder object\<close>

record herder =
  unicorn_bin :: "string option"
  gunicorn_bin :: "string option"
  unicorn :: string
  pidfile :: string
  args :: string
  boot_timeout :: nat
  pidfile_timeout :: nat
  overlap :: int
  max_worker_wait_time :: nat
  master :: "pid option"
  reloading :: bool
  terminating :: bool

text \<open>Python truth of an optional string: \<^verbatim>\<open>None\<close> and \<^verbatim>\<open>''\<close> are false.\<close>

definition truthy :: "string option \<Rightarrow> bool" where
  "truthy s = (case s of None \<Rightarrow> False | Some x \<Rightarrow> x \<noteq> [])"

text \<open>\<^verbatim>\<open>Herder.__init__\<close>: the new object, or the HerderError it raises.\<close>

definition init ::
  "string \<Rightarrow> string option \<Rightarrow> string option \<Rightarrow> string option \<Rightarrow> nat \<Rightarrow> nat \<Rightarrow> int \<Rightarrow> nat \<Rightarrow>
   string \<Rightarrow> error + herder" where
  "init unicorn' unicorn_bin' gunicorn_bin' pidfile' boot_timeout' pidfile_timeout' overlap'
        max_worker_wait_time' args' =
    (let self_unicorn =
           (if truthy unicorn_bin' then the unicorn_bin'
            else if truthy gunicorn_bin' then the gunicorn_bin'
            else unicorn');
         self_pidfile = (case pidfile' of None \<Rightarrow> self_unicorn @ ''.pid'' | Some p \<Rightarrow> p)
     in if \<not> truthy unicorn_bin' \<and> \<not> truthy gunicorn_bin' \<and> map_of COMMANDS self_unicorn = None
        then Inl (HerderError ''Unknown unicorn type: %s'' [S self_unicorn])
        else Inr \<lparr>unicorn_bin = unicorn_bin', gunicorn_bin = gunicorn_bin',
                  unicorn = self_unicorn, pidfile = self_pidfile, args = args',
                  boot_timeout = boot_timeout', pidfile_timeout = pidfile_timeout',
                  overlap = overlap', max_worker_wait_time = max_worker_wait_time',
                  master = None, reloading = False, terminating = False\<rparr>)"

subsection \<open>The world\<close>

text \<open>
  The outside is a function of the clock: what reading the pidfile yields at a time
  (\<open>None\<close> is a PidfileError), which PIDs name a live process, and how many children
  a live process has. \<^verbatim>\<open>shlex.split\<close> and \<^verbatim>\<open>subprocess.Popen\<close> are taken as given.
  The supervisor changes the clock (by sleeping), the registry and the trace.
\<close>

record world =
  clock :: nat
  pidfile_pid :: "nat \<Rightarrow> pid option"
  alive :: "nat \<Rightarrow> pid \<Rightarrow> bool"
  children :: "nat \<Rightarrow> pid \<Rightarrow> nat"
  shlex_split :: "string \<Rightarrow> error + string list"
  popen :: "string list \<Rightarrow> error + pid"
  MANAGED_PIDS :: "pid set"
  trace :: "(nat \<times> event) list"

definition emit :: "event \<Rightarrow> world \<Rightarrow> world" where
  "emit e w = w\<lparr>trace := trace w @ [(clock w, e)]\<rparr>"

definition log :: "level \<Rightarrow> string \<Rightarrow> arg list \<Rightarrow> world \<Rightarrow> world" where
  "log l fmt as w = emit (Log l fmt as) w"

text \<open>
  \<^verbatim>\<open>time.sleep(n)\<close> for a length that is not negative: recorded when it starts,
  then the clock moves on. The clock counts whole seconds and a sleep takes exactly its
  length.
\<close>

definition sleep :: "nat \<Rightarrow> world \<Rightarrow> world" where
  "sleep n w = (emit (Sleep n) w)\<lparr>clock := clock w + n\<rparr>"

definition running :: "world \<Rightarrow> pid \<Rightarrow> bool" where
  "running w p = alive w (clock w) p"

text \<open>
  \<^verbatim>\<open>len(process.children())\<close> and \<^verbatim>\<open>process.send_signal(sig)\<close> of a
  \<^verbatim>\<open>psutil.Process\<close>: both raise NoSuchProcess when the process is gone.
\<close>

definition num_children :: "world \<Rightarrow> pid \<Rightarrow> error + int" where
  "num_children w p =
    (if running w p then Inr (int (children w (clock w) p)) else Inl (NoSuchProcess p))"

definition send_signal :: "pid \<Rightarrow> signal \<Rightarrow> world \<Rightarrow> (error + unit) \<times> world" where
  "send_signal p sig w =
    (if running w p then (Inr (), emit (SendSignal p sig) w)
     else (Inl (NoSuchProcess p), emit (SendSignal p sig) w))"

text \<open>\<^verbatim>\<open>set.add\<close> and \<^verbatim>\<open>set.remove\<close>; the latter raises KeyError on a missing element.\<close>

definition managed_add :: "pid \<Rightarrow> world \<Rightarrow> world" where
  "managed_add p w = w\<lparr>MANAGED_PIDS := insert p (MANAGED_PIDS w)\<rparr>"

definition managed_remove :: "pid \<Rightarrow> world \<Rightarrow> (error + unit) \<times> world" where
  "managed_remove p w =
    (if p \<in> MANAGED_PIDS w then (Inr (), w\<lparr>MANAGED_PIDS := MANAGED_PIDS w - {p}\<rparr>)
     else (Inl (KeyError ''pid''), w))"

subsection \<open>Deadlines\<close>

text \<open>
  Modelled from the spec: the context manager \<^verbatim>\<open>timeout\<close> of
  \<^verbatim>\<open>unicornherder/timeout.py\<close>, which is not among the sources. The spec calls it
  the Deadline, a single-shot wait-with-timeout primitive that bounds a blocking
  operation. The operation bounded here is a wait for a condition that is looked at
  once a second: \<open>timeout b fin step\<close> runs \<open>step\<close> (one second each) until
  \<open>fin\<close> holds, and raises TimeoutError once the \<open>b\<close> seconds are used up. An
  exception raised while the condition is looked at leaves the wait at once.
\<close>

fun timeout ::
  "nat \<Rightarrow> (world \<Rightarrow> error + bool) \<Rightarrow> (world \<Rightarrow> world) \<Rightarrow> world \<Rightarrow> (error + unit) \<times> world"
  where
  "timeout 0 fin step w = (Inl TimeoutError, w)"
| "timeout (Suc b) fin step w =
     (case fin w of
        Inl e \<Rightarrow> (Inl e, w)
      | Inr True \<Rightarrow> (Inr (), w)
      | Inr False \<Rightarrow> timeout b fin step (step w))"

text \<open>A second of \<^verbatim>\<open>process.wait()\<close>: time passes, nothing is done.\<close>

definition tick :: "world \<Rightarrow> world" where
  "tick w = w\<lparr>clock := clock w + 1\<rparr>"

subsection \<open>The handover\<close>

text \<open>
  \<^verbatim>\<open>_wait_for_workers(overlap, max_worker_wait_time, new_process, old_process)\<close>.
  Only the TimeoutError is caught; \<^verbatim>\<open>time.sleep\<close> raises ValueError for a negative
  length.
\<close>

definition wait_for_workers :: "int \<Rightarrow> nat \<Rightarrow> pid \<Rightarrow> pid \<Rightarrow> world \<Rightarrow> (error + unit) \<times> world" where
  "wait_for_workers overlap' max_worker_wait_time' new_process old_process w =
    (case num_children w old_process of
       Inl e \<Rightarrow> (Inl e, w)
     | Inr n \<Rightarrow>
         (let current_workers = n - 1;
              expected_children = max current_workers 1;
              maximum_time = max_worker_wait_time'
          in case timeout maximum_time
                    (\<lambda>w. case num_children w new_process of
                           Inl e \<Rightarrow> Inl e
                         | Inr c \<Rightarrow> Inr (\<not> c < expected_children))
                    (sleep 1) w of
               (Inr u, w1) \<Rightarrow>
                 (let w2 = log Debug
                             ''Found %s child processes for PID %s, old processes will be stopped in %s seconds''
                             [N expected_children, N (int new_process), N overlap'] w1
                  in if overlap' < 0 then (Inl ValueError, w2)
                     else (Inr (), sleep (nat overlap') w2))
             | (Inl TimeoutError, w1) \<Rightarrow>
                 (Inr (),
                  log Warn
                    ''The expected number of workers (%s) was not reached in %s seconds for PID %s, continuing with shutdown''
                    [N expected_children, N (int maximum_time), N (int new_process)] w1)
             | (Inl e, w1) \<Rightarrow> (Inl e, w1)))"

text \<open>\<^verbatim>\<open>_kill_old_master(process)\<close>\<close>

definition kill_old_master :: "pid \<Rightarrow> world \<Rightarrow> (error + unit) \<times> world" where
  "kill_old_master process w =
    (case send_signal process SIGWINCH
            (log Debug ''Sending WINCH to old master (PID %s)'' [N (int process)] w) of
       (Inl e, w1) \<Rightarrow> (Inl e, w1)
     | (Inr u, w1) \<Rightarrow>
         send_signal process SIGQUIT
           (log Debug ''Sending QUIT to old master (PID %s)'' [N (int process)] (sleep 1 w1)))"

subsection \<open>The monitor loop\<close>

text \<open>
  \<^verbatim>\<open>Herder._read_pidfile\<close>. The loop leaves by returning the PID, by returning
  \<^verbatim>\<open>None\<close> when a shutdown is expected, or, once more than
  \<^verbatim>\<open>pidfile_timeout\<close> seconds have passed since \<open>start\<close>, by the HerderError
  raised after it. A sleep takes exactly one second here, so the time passed exceeds
  \<^verbatim>\<open>pidfile_timeout\<close> only after \<^verbatim>\<open>pidfile_timeout + 1\<close> sleeps; a real sleep
  overruns, and a real run may give up one read earlier.
\<close>

function read_pidfile_loop :: "herder \<Rightarrow> nat \<Rightarrow> world \<Rightarrow> (error + pid option) \<times> world" where
  "read_pidfile_loop h start w =
    (case pidfile_pid w (clock w) of
       Some p \<Rightarrow> (Inr (Some p), w)
     | None \<Rightarrow>
         if terminating h then (Inr None, w)
         else
           (let w1 = sleep 1
                  (log Debug ''This is usually not fatal. Retrying in a moment...'' []
                     (log Debug ''Got an error while attempting to read pidfile: %s''
                        [S ''PidfileError''] w))
            in if int (clock w1) - int start > int (pidfile_timeout h)
               then (Inl (HerderError ''Failed to read pidfile %s after %s seconds, aborting!''
                           [S (pidfile h), N (int (pidfile_timeout h))]), w1)
               else read_pidfile_loop h start w1))"
  by pat_completeness auto
termination
  by (relation "measure (\<lambda>(h, start, w). start + pidfile_timeout h + 1 - clock w)")
     (auto simp: sleep_def log_def emit_def)

definition read_pidfile :: "herder \<Rightarrow> world \<Rightarrow> (error + pid option) \<times> world" where
  "read_pidfile h w = read_pidfile_loop h (clock w) w"

text \<open>
  \<^verbatim>\<open>Herder._loop_inner\<close>. \<^verbatim>\<open>psutil.Process(pid)\<close> raises NoSuchProcess when no
  process has that PID; of the handle only the PID is kept.
\<close>

definition loop_inner :: "herder \<Rightarrow> world \<Rightarrow> (error + bool) \<times> herder \<times> world" where
  "loop_inner h w =
    (let old_master = master h in
     case read_pidfile h w of
       (Inl e, w1) \<Rightarrow> (Inl e, h, w1)
     | (Inr None, w1) \<Rightarrow> (Inr False, h, w1)
     | (Inr (Some pid'), w1) \<Rightarrow>
         if \<not> running w1 pid' then (Inr False, h, w1)
         else
           (let h1 = h\<lparr>master := Some pid'\<rparr>;
                w2 = (if old_master = None
                      then managed_add pid'
                             (log Info ''%s booted (PID %s)'' [S (unicorn h1), N (int pid')] w1)
                      else w1)
            in case old_master of
                 None \<Rightarrow> (Inr True, h1, w2)
               | Some old \<Rightarrow>
                   if pid' = old then (Inr True, h1, w2)
                   else
                     (let w3 = managed_add pid'
                                 (log Info ''%s changed PID (was %s, now %s)''
                                    [S (unicorn h1), N (int old), N (int pid')] w2)
                      in if reloading h1 then
                           (case wait_for_workers (overlap h1) (max_worker_wait_time h1)
                                   pid' old w3 of
                              (Inl e, w4) \<Rightarrow> (Inl e, h1, w4)
                            | (Inr u, w4) \<Rightarrow>
                                (case kill_old_master old w4 of
                                   (Inl e, w5) \<Rightarrow> (Inl e, h1, w5)
                                 | (Inr u', w5) \<Rightarrow>
                                     (case managed_remove old w5 of
                                        (Inl e, w6) \<Rightarrow> (Inl e, h1\<lparr>reloading := False\<rparr>, w6)
                                      | (Inr u'', w6) \<Rightarrow>
                                          (Inr True, h1\<lparr>reloading := False\<rparr>, w6))))
                         else
                           (case managed_remove old w3 of
                              (Inl e, w6) \<Rightarrow> (Inl e, h1, w6)
                            | (Inr u, w6) \<Rightarrow> (Inr True, h1, w6)))))"

text \<open>
  \<^verbatim>\<open>Herder.loop\<close>. The loop may run for ever, so it is given fuel, one unit for each
  round: \<open>None\<close> is a loop that is still running when the fuel is used up.
\<close>

fun loop :: "nat \<Rightarrow> herder \<Rightarrow> world \<Rightarrow> (error + int) option \<times> herder \<times> world" where
  "loop 0 h w = (None, h, w)"
| "loop (Suc n) h w =
     (case loop_inner h w of
        (Inl e, h1, w1) \<Rightarrow> (Some (Inl e), h1, w1)
      | (Inr False, h1, w1) \<Rightarrow>
          (Some (Inr 1), h1, log Error ''%s died. Exiting.'' [S (unicorn h1)] w1)
      | (Inr True, h1, w1) \<Rightarrow> loop n h1 (sleep 2 w1))"

subsection \<open>Signal handlers\<close>

text \<open>
  \<^verbatim>\<open>Herder._handle_signal(name)\<close> applied to the number of the signal it was installed
  for, and \<^verbatim>\<open>Herder._handle_HUP\<close>.
\<close>

definition handle_signal ::
  "string \<Rightarrow> signal \<Rightarrow> herder \<Rightarrow> world \<Rightarrow> (error + unit) \<times> herder \<times> world" where
  "handle_signal name signum h w =
    (case master h of
       None \<Rightarrow> (Inr (), h, log Warn ''Caught %s but have no tracked process.'' [S name] w)
     | Some m \<Rightarrow>
         (let expecting = signum \<in> {SIGINT, SIGQUIT, SIGTERM};
              w1 = (if expecting then log Debug ''Caught %s: expecting termination.'' [S name] w
                    else w);
              h1 = (if expecting then h\<lparr>terminating := True\<rparr> else h);
              w2 = log Debug ''Forwarding %s to PID %s'' [S name, N (int m)] w1
          in case send_signal m signum w2 of (r, w3) \<Rightarrow> (r, h1, w3)))"

definition handle_HUP :: "herder \<Rightarrow> world \<Rightarrow> (error + unit) \<times> herder \<times> world" where
  "handle_HUP h w =
    (case master h of
       None \<Rightarrow> (Inr (), h, log Warn ''Caught HUP but have no tracked process.'' [] w)
     | Some m \<Rightarrow>
         (let w1 = log Info ''Caught HUP: gracefully restarting PID %s'' [N (int m)] w;
              h1 = h\<lparr>reloading := True\<rparr>
          in case send_signal m SIGUSR2 w1 of (r, w2) \<Rightarrow> (r, h1, w2)))"

text \<open>The signals \<^verbatim>\<open>spawn\<close> installs a forwarding handler for, with their names.\<close>

definition forwarded :: "(string \<times> signal) list" where
  "forwarded =
    [(''INT'', SIGINT), (''QUIT'', SIGQUIT), (''TERM'', SIGTERM), (''TTIN'', SIGTTIN),
     (''TTOU'', SIGTTOU), (''USR1'', SIGUSR1), (''USR2'', SIGUSR2)]"

subsection \<open>Spawning\<close>

text \<open>
  The command line of \<^verbatim>\<open>Herder.spawn\<close>: \<open>None\<close> is the branch that returns
  \<^verbatim>\<open>False\<close> because no command applies.
\<close>

definition getitem :: "string \<Rightarrow> error + piece list" where
  "getitem k = (case map_of COMMANDS k of None \<Rightarrow> Inl (KeyError k) | Some t \<Rightarrow> Inr t)"

definition resolve_cmd :: "herder \<Rightarrow> (error + string) option" where
  "resolve_cmd h =
    (case map_of COMMANDS (unicorn h) of
       Some cmd \<Rightarrow> Some (format cmd [(''pidfile'', pidfile h), (''args'', args h)])
     | None \<Rightarrow>
         if truthy (unicorn_bin h) then
           Some (case getitem ''unicorn_bin'' of
                   Inl e \<Rightarrow> Inl e
                 | Inr cmd \<Rightarrow>
                     format cmd [(''unicorn_bin'', unicorn h), (''pidfile'', pidfile h),
                                 (''args'', args h)])
         else if truthy (gunicorn_bin h) then
           Some (case getitem ''gunicorn_bin'' of
                   Inl e \<Rightarrow> Inl e
                 | Inr cmd \<Rightarrow>
                     format cmd [(''gunicorn_bin'', unicorn h), (''pidfile'', pidfile h),
                                 (''args'', args h)])
         else None)"

text \<open>\<^verbatim>\<open>Popen.terminate\<close> sends SIGTERM; \<^verbatim>\<open>signal.signal\<close> installs a handler.\<close>

definition terminate :: "pid \<Rightarrow> world \<Rightarrow> world" where
  "terminate p w = emit (SendSignal p SIGTERM) w"

definition install_handlers :: "world \<Rightarrow> world" where
  "install_handlers w = fold (\<lambda>(name, sig). emit (Install sig)) forwarded (emit (Install SIGHUP) w)"

text \<open>
  \<^verbatim>\<open>Herder.spawn\<close>. \<^verbatim>\<open>process.wait()\<close> under the deadline waits until the
  foreground process is no longer running; \<^verbatim>\<open>process.poll() is None\<close> says that
  it still is.
\<close>

definition spawn :: "herder \<Rightarrow> world \<Rightarrow> (error + bool) \<times> world" where
  "spawn h w =
    (case resolve_cmd h of
       None \<Rightarrow> (Inr False, w)
     | Some (Inl e) \<Rightarrow> (Inl e, w)
     | Some (Inr cmd) \<Rightarrow>
         (let w1 = log Debug ''Calling %s: %s'' [S (unicorn h), S cmd] w in
          case shlex_split w1 cmd of
            Inl e \<Rightarrow> (Inl e, w1)
          | Inr argv \<Rightarrow>
              (case popen w1 argv of
                 Inl (OSError errno) \<Rightarrow>
                   if errno = 2 then
                     (case argv of
                        [] \<Rightarrow> (Inl IndexError, w1)
                      | a # rest \<Rightarrow>
                          (Inr False,
                           log Error ''Command '%s' not found. Is it installed?'' [S a] w1))
                   else (Inl (OSError errno), w1)
               | Inl e \<Rightarrow> (Inl e, w1)
               | Inr p \<Rightarrow>
                   (let w2 = managed_add p w1 in
                    case timeout (boot_timeout h) (\<lambda>w. Inr (\<not> running w p)) tick w2 of
                      (Inl TimeoutError, w3) \<Rightarrow>
                        (let w4 = log Error
                                    ''%s failed to daemonize within %s seconds. Sending TERM and exiting.''
                                    [S (unicorn h), N (int (boot_timeout h))] w3
                         in (Inr False, if running w4 p then terminate p w4 else w4))
                    | (Inl e, w3) \<Rightarrow> (Inl e, w3)
                    | (Inr u, w3) \<Rightarrow>
                        (case managed_remove p w3 of
                           (Inl e, w4) \<Rightarrow> (Inl e, w4)
                         | (Inr u', w4) \<Rightarrow> (Inr True, install_handlers w4))))))"

subsection \<open>Traces\<close>

text \<open>What a run has added to the trace, and the signals among a list of events.\<close>

definition new_events :: "world \<Rightarrow> world \<Rightarrow> (nat \<times> event) list" where
  "new_events w w' = drop (length (trace w)) (trace w')"

fun signals_of :: "(nat \<times> event) list \<Rightarrow> (nat \<times> pid \<times> signal) list" where
  "signals_of [] = []"
| "signals_of ((t, SendSignal p s) # es) = (t, p, s) # signals_of es"
| "signals_of (e # es) = signals_of es"

subsection \<open>Example objects and worlds\<close>

text \<open>
  A herder as \<^verbatim>\<open>Herder()\<close> builds it, with short timeouts, and worlds at second 10 of
  a reload from master 7 to master 8: in \<open>w_serving\<close> both masters live, in
  \<open>w_gone\<close> the old master has exited already, in \<open>w_quits\<close> it exits during the
  second after the first signal.
\<close>

definition h_fresh :: herder where
  "h_fresh = \<lparr>unicorn_bin = None, gunicorn_bin = None, unicorn = ''gunicorn'',
     pidfile = ''gunicorn.pid'', args = [], boot_timeout = 3, pidfile_timeout = 2,
     overlap = 3, max_worker_wait_time = 4, master = None, reloading = False,
     terminating = False\<rparr>"

definition w_idle :: world where
  "w_idle = \<lparr>clock = 0, pidfile_pid = (\<lambda>t. None), alive = (\<lambda>t p. False),
     children = (\<lambda>t p. 0), shlex_split = (\<lambda>s. Inr [s]), popen = (\<lambda>a. Inl (OSError 2)),
     MANAGED_PIDS = {}, trace = []\<rparr>"

definition w_serving :: world where
  "w_serving = w_idle\<lparr>clock := 10, alive := (\<lambda>t p. p = 7 \<or> p = 8)\<rparr>"

definition w_gone :: world where
  "w_gone = w_idle\<lparr>clock := 10, alive := (\<lambda>t p. p = 8)\<rparr>"

definition w_quits :: world where
  "w_quits = w_idle\<lparr>clock := 10, alive := (\<lambda>t p. p = 8 \<or> (p = 7 \<and> t \<le> 10))\<rparr>"

text \<open>
  Worlds for the wait: the old master 7 has five children and the new master 8 gets its
  four workers at second 12 (\<open>w_reload\<close>) or never (\<open>w_stuck\<close>); in \<open>w_small\<close>
  the old master has no children and the new master has one.
\<close>

definition w_reload :: world where
  "w_reload = w_serving\<lparr>children := (\<lambda>t p. if p = 7 then 5 else if p = 8 \<and> 12 \<le> t then 4 else 0)\<rparr>"

definition w_small :: world where
  "w_small = w_serving\<lparr>children := (\<lambda>t p. if p = 8 then 1 else 0)\<rparr>"

definition w_stuck :: world where
  "w_stuck = w_serving\<lparr>children := (\<lambda>t p. if p = 7 then 5 else 0)\<rparr>"

text \<open>As \<open>w_stuck\<close>, but the new master 8 dies at second 11, while it is polled.\<close>

definition w_newdies :: world where
  "w_newdies = w_stuck\<lparr>alive := (\<lambda>t p. p = 7 \<or> (p = 8 \<and> t < 11))\<rparr>"

text \<open>
  Worlds for \<^verbatim>\<open>spawn\<close>: the launched process 100 never exits (\<open>w_hang\<close>), or
  exits at second 3, just as the boot timeout of \<open>h_fresh\<close> ends (\<open>w_late\<close>).
\<close>

definition w_hang :: world where
  "w_hang = w_idle\<lparr>alive := (\<lambda>t p. p = 100),
     shlex_split := (\<lambda>s. Inr [''gunicorn'', ''-D'', ''-p'', ''gunicorn.pid'']),
     popen := (\<lambda>a. Inr 100)\<rparr>"

definition w_late :: world where
  "w_late = w_hang\<lparr>alive := (\<lambda>t p. p = 100 \<and> t < 3)\<rparr>"

text \<open>
  A monitor round that finds the pidfile changed from 7 to 8, with a reload requested
  (\<open>h_reloading\<close>); a herder whose master 7 is being shut down by the operator
  (\<open>h_stopping\<close>) or just tracked (\<open>h_tracking\<close>); a world with no readable
  pidfile (\<open>w_stopped\<close>) and one whose pidfile names a process that is gone
  (\<open>w_died\<close>).
\<close>

definition h_reloading :: herder where
  "h_reloading = h_fresh\<lparr>master := Some 7, reloading := True\<rparr>"

definition w_fork :: world where
  "w_fork = w_reload\<lparr>pidfile_pid := (\<lambda>t. Some 8), MANAGED_PIDS := {7}\<rparr>"

text \<open>As \<open>w_fork\<close>, but the old master 7 exits at second 12, during the wait.\<close>

definition w_dies :: world where
  "w_dies = w_fork\<lparr>alive := (\<lambda>t p. p = 8 \<or> (p = 7 \<and> t < 12))\<rparr>"

definition h_stopping :: herder where
  "h_stopping = h_fresh\<lparr>master := Some 7, terminating := True\<rparr>"

definition h_tracking :: herder where
  "h_tracking = h_fresh\<lparr>master := Some 7\<rparr>"

definition w_stopped :: world where
  "w_stopped = w_idle\<lparr>clock := 10\<rparr>"

definition w_died :: world where
  "w_died = w_idle\<lparr>clock := 10, pidfile_pid := (\<lambda>t. Some 7)\<rparr>"

section \<open>Properties\<close>

subsection \<open>Construction\<close>

lemma known_flavor_iff: "map_of COMMANDS u \<noteq> None \<longleftrightarrow> u \<in> fst ` set COMMANDS"
  by (simp add: map_of_eq_None_iff)

text \<open>
  C6. Constructing a Herder with a flavor that is a key of \<open>COMMANDS\<close> never raises,
  whatever the other arguments are. With a flavor that is no key and no custom binary
  (neither \<^verbatim>\<open>unicorn_bin\<close> nor \<^verbatim>\<open>gunicorn_bin\<close> is true), the constructor itself
  raises the HerderError.
\<close>

theorem init_flavor:
  "(u \<in> fst ` set COMMANDS \<longrightarrow> (\<exists>h. init u ub gb pf bt pt ov mw a = Inr h)) \<and>
   (u \<notin> fst ` set COMMANDS \<and> \<not> truthy ub \<and> \<not> truthy gb \<longrightarrow>
      init u ub gb pf bt pt ov mw a = Inl (HerderError ''Unknown unicorn type: %s'' [S u]))"
  unfolding init_def Let_def known_flavor_iff [symmetric]
  by (auto simp: truthy_def split: option.splits)

theorem init_flavor_witness:
  "init ''gunicorn'' None None None 3 2 3 4 [] = Inr h_fresh \<and>
   init ''puma'' None (Some []) None 180 180 180 180 [] =
     Inl (HerderError ''Unknown unicorn type: %s'' [S ''puma''])"
  using init_flavor [of "''gunicorn''" None None None 3 2 3 4 "[]"]
        init_flavor [of "''puma''" None "Some []" None 180 180 180 180 "[]"]
  by (simp add: COMMANDS_def truthy_def init_def h_fresh_def)

subsection \<open>Signal handlers\<close>

lemma new_events_append: "trace w' = trace w @ es \<Longrightarrow> new_events w w' = es"
  by (simp add: new_events_def)

text \<open>
  C9. When no master is tracked, the handler of a forwarded signal (for any name and
  signal number) and the HUP handler return without raising, leave the Herder object as
  it is (so \<open>reloading\<close> and \<open>terminating\<close> keep their values), send no signal and
  let no time pass: all they do is log a warning.
\<close>

theorem handlers_without_master:
  assumes "master h = None"
  shows "handle_signal name signum h w =
           (Inr (), h, log Warn ''Caught %s but have no tracked process.'' [S name] w) \<and>
         handle_HUP h w = (Inr (), h, log Warn ''Caught HUP but have no tracked process.'' [] w) \<and>
         signals_of (new_events w (snd (snd (handle_signal name signum h w)))) = [] \<and>
         signals_of (new_events w (snd (snd (handle_HUP h w)))) = [] \<and>
         clock (snd (snd (handle_signal name signum h w))) = clock w \<and>
         clock (snd (snd (handle_HUP h w))) = clock w"
  using assms
  by (simp add: handle_signal_def handle_HUP_def log_def emit_def new_events_def)

theorem handlers_without_master_witness:
  "fst (handle_signal ''TERM'' SIGTERM h_fresh w_serving) = Inr () \<and>
   fst (snd (handle_signal ''TERM'' SIGTERM h_fresh w_serving)) = h_fresh \<and>
   fst (handle_HUP h_fresh w_serving) = Inr () \<and>
   fst (snd (handle_HUP h_fresh w_serving)) = h_fresh \<and>
   signals_of (new_events w_serving (snd (snd (handle_signal ''TERM'' SIGTERM h_fresh w_serving)))) = [] \<and>
   signals_of (new_events w_serving (snd (snd (handle_HUP h_fresh w_serving)))) = []"
  using handlers_without_master [of h_fresh "''TERM''" SIGTERM w_serving]
  by (auto simp: h_fresh_def)

subsection \<open>Reading the pidfile\<close>

text \<open>
  C10. When \<open>terminating\<close> is set and the first read of the pidfile fails,
  \<^verbatim>\<open>_read_pidfile\<close> returns \<^verbatim>\<open>None\<close> at once: the world is unchanged (no sleep,
  no second read, no log record), and this is so for every value of
  \<open>pidfile_timeout\<close>.
\<close>

theorem read_pidfile_terminating:
  assumes "terminating h" and "pidfile_pid w (clock w) = None"
  shows "read_pidfile (h\<lparr>pidfile_timeout := T\<rparr>) w = (Inr None, w)"
  using assms by (simp add: read_pidfile_def)

theorem read_pidfile_terminating_witness:
  "read_pidfile (h_fresh\<lparr>terminating := True, pidfile_timeout := 180\<rparr>) w_idle = (Inr None, w_idle)"
  using read_pidfile_terminating [of "h_fresh\<lparr>terminating := True\<rparr>" w_idle 180]
  by (simp add: h_fresh_def w_idle_def)

subsection \<open>Killing the old master\<close>

lemma kill_old_master_trace:
  "trace (snd (kill_old_master p w)) = trace w @
     (if running w p
      then [(clock w, Log Debug ''Sending WINCH to old master (PID %s)'' [N (int p)]),
            (clock w, SendSignal p SIGWINCH), (clock w, Sleep 1),
            (clock w + 1, Log Debug ''Sending QUIT to old master (PID %s)'' [N (int p)]),
            (clock w + 1, SendSignal p SIGQUIT)]
      else [(clock w, Log Debug ''Sending WINCH to old master (PID %s)'' [N (int p)]),
            (clock w, SendSignal p SIGWINCH)])"
  by (simp add: kill_old_master_def send_signal_def running_def log_def emit_def sleep_def)

lemma kill_old_master_result:
  "fst (kill_old_master p w) =
     (if alive w (clock w) p \<and> alive w (clock w + 1) p then Inr () else Inl (NoSuchProcess p))"
  by (simp add: kill_old_master_def send_signal_def running_def log_def emit_def sleep_def)

text \<open>
  C7. The signals \<^verbatim>\<open>_kill_old_master\<close> sends, in order and with the time of each:
  WINCH to the old master first and, one second of sleep later, QUIT to the old master;
  no other signal to any process. (When the old master is gone at the first send that
  send raises and nothing follows it.)
\<close>

theorem kill_old_master_order:
  "signals_of (new_events w (snd (kill_old_master p w))) =
     (if running w p then [(clock w, p, SIGWINCH), (clock w + 1, p, SIGQUIT)]
      else [(clock w, p, SIGWINCH)]) \<and>
   (running w p \<longrightarrow> (clock w, Sleep 1) \<in> set (new_events w (snd (kill_old_master p w))))"
  by (simp add: new_events_append [OF kill_old_master_trace])

theorem kill_old_master_order_witness:
  "signals_of (new_events w_serving (snd (kill_old_master 7 w_serving))) =
     [(10, 7, SIGWINCH), (11, 7, SIGQUIT)] \<and>
   (10, Sleep 1) \<in> set (new_events w_serving (snd (kill_old_master 7 w_serving)))"
  using kill_old_master_order [of w_serving 7]
  by (simp add: w_serving_def w_idle_def running_def)

text \<open>
  C3. \<^verbatim>\<open>_kill_old_master\<close> does raise in the supervisor: when the old master has
  exited before the WINCH is sent, or exits in the second before the QUIT is sent,
  the NoSuchProcess of \<^verbatim>\<open>send_signal\<close> is not caught.
\<close>

theorem kill_old_master_raises:
  "fst (kill_old_master 7 w_gone) = Inl (NoSuchProcess 7) \<and>
   fst (kill_old_master 7 w_quits) = Inl (NoSuchProcess 7)"
  by (simp add: kill_old_master_def send_signal_def running_def log_def emit_def sleep_def
        w_gone_def w_quits_def w_idle_def)

subsection \<open>Deadlines and sleeping\<close>

lemma timeout_stops:
  "\<forall>j<k. fin ((step ^^ j) w) = Inr False \<Longrightarrow> k < b \<Longrightarrow> fin ((step ^^ k) w) \<noteq> Inr False \<Longrightarrow>
   timeout b fin step w =
     (case fin ((step ^^ k) w) of Inl e \<Rightarrow> Inl e | Inr c \<Rightarrow> Inr (), (step ^^ k) w)"
proof (induction b arbitrary: w k)
  case 0
  then show ?case by simp
next
  case (Suc b)
  show ?case
  proof (cases k)
    case 0
    with Suc.prems(3) show ?thesis
      by (cases "fin w") (auto split: bool.splits)
  next
    case (Suc k')
    from Suc.prems(1) Suc have nd: "fin w = Inr False" by (metis funpow_0 zero_less_Suc)
    have a: "\<forall>j<k'. fin ((step ^^ j) (step w)) = Inr False"
    proof (intro allI impI)
      fix j assume "j < k'"
      then have "Suc j < k" using Suc by simp
      with Suc.prems(1) have "fin ((step ^^ Suc j) w) = Inr False" by blast
      then show "fin ((step ^^ j) (step w)) = Inr False" by (simp add: funpow_swap1)
    qed
    have b: "k' < b" using Suc.prems(2) Suc by simp
    have c: "fin ((step ^^ k') (step w)) \<noteq> Inr False"
      using Suc.prems(3) Suc by (simp add: funpow_swap1)
    from Suc.IH [OF a b c] nd show ?thesis using Suc by (simp add: funpow_swap1)
  qed
qed

lemma timeout_expired:
  "\<forall>j<b. fin ((step ^^ j) w) = Inr False \<Longrightarrow>
   timeout b fin step w = (Inl TimeoutError, (step ^^ b) w)"
proof (induction b arbitrary: w)
  case 0
  then show ?case by simp
next
  case (Suc b)
  from Suc.prems have nd: "fin w = Inr False" by (metis funpow_0 zero_less_Suc)
  have a: "\<forall>j<b. fin ((step ^^ j) (step w)) = Inr False"
  proof (intro allI impI)
    fix j assume "j < b"
    then have "Suc j < Suc b" by simp
    with Suc.prems have "fin ((step ^^ Suc j) w) = Inr False" by blast
    then show "fin ((step ^^ j) (step w)) = Inr False" by (simp add: funpow_swap1)
  qed
  from Suc.IH [OF a] nd show ?case by (simp add: funpow_swap1)
qed

lemma first_time:
  fixes P :: "nat \<Rightarrow> bool"
  shows "(\<forall>j<b. \<not> P j) \<or> (\<exists>k<b. P k \<and> (\<forall>j<k. \<not> P j))"
proof (cases "\<exists>k<b. P k")
  case False
  then show ?thesis by blast
next
  case True
  then obtain k where k: "k < b" "P k" by blast
  define m where "m = (LEAST i. P i)"
  have "P m" unfolding m_def using k(2) by (rule LeastI)
  moreover have "m \<le> k" unfolding m_def using k(2) by (rule Least_le)
  moreover have "\<forall>j<m. \<not> P j" unfolding m_def using not_less_Least by blast
  ultimately show ?thesis using k(1) by (metis le_less_trans)
qed

lemma sleep_simps:
  "clock (sleep n w) = clock w + n"
  "trace (sleep n w) = trace w @ [(clock w, Sleep n)]"
  "children (sleep n w) = children w"
  "alive (sleep n w) = alive w"
  "pidfile_pid (sleep n w) = pidfile_pid w"
  "MANAGED_PIDS (sleep n w) = MANAGED_PIDS w"
  by (simp_all add: sleep_def emit_def)

lemma log_simps:
  "clock (log l m as w) = clock w"
  "trace (log l m as w) = trace w @ [(clock w, Log l m as)]"
  "children (log l m as w) = children w"
  "alive (log l m as w) = alive w"
  "pidfile_pid (log l m as w) = pidfile_pid w"
  "MANAGED_PIDS (log l m as w) = MANAGED_PIDS w"
  by (simp_all add: log_def emit_def)

lemma sleeps_clock: "clock ((sleep n ^^ k) w) = clock w + k * n"
  by (induction k) (simp_all add: sleep_simps)

lemma sleeps_trace:
  "trace ((sleep n ^^ k) w) = trace w @ map (\<lambda>j. (clock w + j * n, Sleep n)) [0..<k]"
  by (induction k) (simp_all add: sleep_simps sleeps_clock)

lemma sleeps_children: "children ((sleep n ^^ k) w) = children w"
  by (induction k) (simp_all add: sleep_simps)

lemma sleeps_managed: "MANAGED_PIDS ((sleep n ^^ k) w) = MANAGED_PIDS w"
  by (induction k) (simp_all add: sleep_simps)

lemma sleeps_alive: "alive ((sleep n ^^ k) w) = alive w"
  by (induction k) (simp_all add: sleep_simps)

lemma sleeps_num_children:
  "num_children ((sleep n ^^ k) w) p =
     (if alive w (clock w + k * n) p then Inr (int (children w (clock w + k * n) p))
      else Inl (NoSuchProcess p))"
  by (simp add: num_children_def running_def sleeps_clock sleeps_children sleeps_alive)

text \<open>
  The wait, when the child counts can be read: the target is reached at second \<open>k\<close> of
  the budget, or not within the budget.
\<close>

lemma wait_for_workers_reached:
  assumes "alive w (clock w) old"
    and "\<forall>j\<le>k. alive w (clock w + j) new"
    and "\<forall>j<k. int (children w (clock w + j) new) < max (int (children w (clock w) old) - 1) 1"
    and "k < mwt"
    and "max (int (children w (clock w) old) - 1) 1 \<le> int (children w (clock w + k) new)"
  shows "wait_for_workers ov mwt new old w =
    (if ov < 0 then Inl ValueError else Inr (),
     (if ov < 0 then id else sleep (nat ov))
       (log Debug
          ''Found %s child processes for PID %s, old processes will be stopped in %s seconds''
          [N (max (int (children w (clock w) old) - 1) 1), N (int new), N ov]
          ((sleep 1 ^^ k) w)))"
proof -
  define e where "e = max (int (children w (clock w) old) - 1) 1"
  define fin where "fin = (\<lambda>w. case num_children w new of
                                 Inl x \<Rightarrow> Inl x | Inr c \<Rightarrow> Inr (\<not> c < e))"
  have a: "\<forall>j<k. fin ((sleep 1 ^^ j) w) = Inr False"
    using assms(2,3) by (simp add: fin_def e_def sleeps_num_children)
  have c: "fin ((sleep 1 ^^ k) w) = Inr True"
    using assms(2,5) unfolding fin_def e_def [symmetric] by (simp add: sleeps_num_children)
  then have c': "fin ((sleep 1 ^^ k) w) \<noteq> Inr False" by simp
  have "timeout mwt fin (sleep 1) w = (Inr (), (sleep 1 ^^ k) w)"
    using timeout_stops [OF a assms(4) c'] c by simp
  then show ?thesis
    using assms(1)
    unfolding wait_for_workers_def Let_def fin_def e_def
    by (simp add: num_children_def running_def)
qed

lemma wait_for_workers_expired:
  assumes "alive w (clock w) old"
    and "\<forall>j<mwt. alive w (clock w + j) new"
    and "\<forall>j<mwt. int (children w (clock w + j) new) < max (int (children w (clock w) old) - 1) 1"
  shows "wait_for_workers ov mwt new old w =
    (Inr (),
     log Warn
       ''The expected number of workers (%s) was not reached in %s seconds for PID %s, continuing with shutdown''
       [N (max (int (children w (clock w) old) - 1) 1), N (int mwt), N (int new)]
       ((sleep 1 ^^ mwt) w))"
proof -
  define e where "e = max (int (children w (clock w) old) - 1) 1"
  define fin where "fin = (\<lambda>w. case num_children w new of
                                 Inl x \<Rightarrow> Inl x | Inr c \<Rightarrow> Inr (\<not> c < e))"
  have a: "\<forall>j<mwt. fin ((sleep 1 ^^ j) w) = Inr False"
    using assms(2,3) by (simp add: fin_def e_def sleeps_num_children)
  have "timeout mwt fin (sleep 1) w = (Inl TimeoutError, (sleep 1 ^^ mwt) w)"
    using a by (rule timeout_expired)
  then show ?thesis
    using assms(1)
    unfolding wait_for_workers_def Let_def fin_def e_def
    by (simp add: num_children_def running_def)
qed

subsection \<open>Waiting for the workers\<close>

text \<open>
  C5. The target of \<^verbatim>\<open>_wait_for_workers\<close> is the number of children of the old
  master minus one, and at least 1. While the new master has fewer children than that,
  the wait sleeps a second and looks again; at the first second \<open>k\<close> (within the
  budget) at which the new master has reached the target, it stops polling and reports
  the target (and then sleeps for the overlap, unless that is negative). The child
  counts are those of live processes: the old master is alive when the wait starts and
  the new master is alive each time it is polled.
\<close>

theorem wait_for_workers_target:
  assumes "alive w (clock w) old"
    and "\<forall>j\<le>k. alive w (clock w + j) new"
    and "\<forall>j<k. int (children w (clock w + j) new) < max (int (children w (clock w) old) - 1) 1"
    and "k < mwt"
    and "max (int (children w (clock w) old) - 1) 1 \<le> int (children w (clock w + k) new)"
  shows "new_events w (snd (wait_for_workers ov mwt new old w)) =
     map (\<lambda>j. (clock w + j, Sleep 1)) [0..<k] @
     [(clock w + k,
       Log Debug
         ''Found %s child processes for PID %s, old processes will be stopped in %s seconds''
         [N (max (int (children w (clock w) old) - 1) 1), N (int new), N ov])] @
     (if ov < 0 then [] else [(clock w + k, Sleep (nat ov))])"
  by (rule new_events_append)
     (simp add: wait_for_workers_reached [OF assms] sleep_simps log_simps sleeps_trace
        sleeps_clock)

theorem wait_for_workers_target_witness:
  "new_events w_reload (snd (wait_for_workers 3 4 8 7 w_reload)) =
     [(10, Sleep 1), (11, Sleep 1),
      (12, Log Debug
         ''Found %s child processes for PID %s, old processes will be stopped in %s seconds''
         [N 4, N 8, N 3]),
      (12, Sleep 3)] \<and>
   new_events w_small (snd (wait_for_workers 3 4 8 7 w_small)) =
     [(10, Log Debug
         ''Found %s child processes for PID %s, old processes will be stopped in %s seconds''
         [N 1, N 8, N 3]),
      (10, Sleep 3)]"
proof -
  have l: "alive w_reload (clock w_reload) 7" "\<forall>j\<le>2. alive w_reload (clock w_reload + j) 8"
    "alive w_small (clock w_small) 7" "\<forall>j\<le>0. alive w_small (clock w_small + j) 8"
    by (simp_all add: w_reload_def w_small_def w_serving_def w_idle_def)
  have a: "\<forall>j<2. int (children w_reload (clock w_reload + j) 8)
             < max (int (children w_reload (clock w_reload) 7) - 1) 1"
    by (auto simp: w_reload_def w_serving_def w_idle_def)
  have b: "max (int (children w_reload (clock w_reload) 7) - 1) 1
             \<le> int (children w_reload (clock w_reload + 2) 8)"
    by (simp add: w_reload_def w_serving_def w_idle_def)
  have c: "\<forall>j<0. int (children w_small (clock w_small + j) 8)
             < max (int (children w_small (clock w_small) 7) - 1) 1"
    by simp
  have d: "max (int (children w_small (clock w_small) 7) - 1) 1
             \<le> int (children w_small (clock w_small + 0) 8)"
    by (simp add: w_small_def w_serving_def w_idle_def)
  have e: "[0..<2] = [0, 1]" by (simp add: upt_rec)
  show ?thesis
    using wait_for_workers_target [OF l(1) l(2) a _ b, of 4 3]
          wait_for_workers_target [OF l(3) l(4) c _ d, of 4 3]
    by (simp add: e w_reload_def w_small_def w_serving_def w_idle_def)
qed

text \<open>
  C8. \<^verbatim>\<open>_wait_for_workers\<close> does not always return: when the old master has
  exited before the wait starts, or the new master dies while it is polled (here at
  second 11, one second into a budget of four), the NoSuchProcess of
  \<^verbatim>\<open>children()\<close> is not caught and the wait raises it.
\<close>

theorem wait_for_workers_raises:
  "wait_for_workers 3 4 8 7 w_gone = (Inl (NoSuchProcess 7), w_gone) \<and>
   fst (wait_for_workers 3 4 8 7 w_newdies) = Inl (NoSuchProcess 8) \<and>
   clock (snd (wait_for_workers 3 4 8 7 w_newdies)) = 11"
  by (simp add: wait_for_workers_def num_children_def running_def sleep_def emit_def
        w_gone_def w_newdies_def w_stuck_def w_serving_def w_idle_def eval_nat_numeral)

text \<open>
  When both masters stay alive and the overlap is not negative, the wait returns after
  at most \<open>max_worker_wait_time + overlap\<close> seconds. When the target is first reached
  at second \<open>k\<close> of the budget, it returns \<open>overlap\<close> seconds later, the overlap
  sleep being the last thing it did. When the target is not reached within the budget,
  it returns when the budget ends, having slept once a second and then logged the
  warning: there is no overlap sleep.
\<close>

lemma wait_for_workers_bounded:
  fixes w :: world and ov :: int and mwt :: nat and new old :: pid
  defines "R \<equiv> wait_for_workers ov mwt new old w"
    and "e \<equiv> max (int (children w (clock w) old) - 1) 1"
  assumes live: "alive w (clock w) old" "\<forall>j<mwt. alive w (clock w + j) new"
    and ov: "0 \<le> ov"
  shows "fst R = Inr () \<and>
     clock (snd R) \<le> clock w + mwt + nat ov \<and>
     (\<forall>k<mwt. (\<forall>j<k. int (children w (clock w + j) new) < e) \<and>
               e \<le> int (children w (clock w + k) new) \<longrightarrow>
        clock (snd R) = clock w + k + nat ov \<and>
        last (trace (snd R)) = (clock w + k, Sleep (nat ov))) \<and>
     ((\<forall>j<mwt. int (children w (clock w + j) new) < e) \<longrightarrow>
        clock (snd R) = clock w + mwt \<and>
        new_events w (snd R) =
          map (\<lambda>j. (clock w + j, Sleep 1)) [0..<mwt] @
          [(clock w + mwt,
            Log Warn
              ''The expected number of workers (%s) was not reached in %s seconds for PID %s, continuing with shutdown''
              [N e, N (int mwt), N (int new)])])"
proof -
  have reached: "fst R = Inr () \<and> clock (snd R) = clock w + k + nat ov \<and>
      last (trace (snd R)) = (clock w + k, Sleep (nat ov))"
    if "k < mwt" "\<forall>j<k. int (children w (clock w + j) new) < e"
       "e \<le> int (children w (clock w + k) new)" for k
  proof -
    have "\<forall>j\<le>k. alive w (clock w + j) new" using live(2) that(1) by simp
    from wait_for_workers_reached [OF live(1) this, of mwt ov] that ov show ?thesis
      unfolding R_def e_def by (simp add: sleep_simps log_simps sleeps_clock)
  qed
  have expired: "fst R = Inr () \<and> clock (snd R) = clock w + mwt \<and>
      new_events w (snd R) =
          map (\<lambda>j. (clock w + j, Sleep 1)) [0..<mwt] @
          [(clock w + mwt,
            Log Warn
              ''The expected number of workers (%s) was not reached in %s seconds for PID %s, continuing with shutdown''
              [N e, N (int mwt), N (int new)])]"
    if "\<forall>j<mwt. int (children w (clock w + j) new) < e"
    using wait_for_workers_expired [OF live, of ov] that
    unfolding R_def e_def new_events_def by (simp add: log_simps sleeps_clock sleeps_trace)
  consider (E) "\<forall>j<mwt. int (children w (clock w + j) new) < e"
    | (R) k where "k < mwt" "e \<le> int (children w (clock w + k) new)"
        "\<forall>j<k. int (children w (clock w + j) new) < e"
    using first_time [of mwt "\<lambda>j. e \<le> int (children w (clock w + j) new)"]
    by (auto simp: not_le)
  then have "fst R = Inr () \<and> clock (snd R) \<le> clock w + mwt + nat ov"
  proof cases
    case E
    with expired show ?thesis by simp
  next
    case (R k)
    with reached [of k] show ?thesis by simp
  qed
  with reached expired show ?thesis by blast
qed

subsection \<open>Spawning\<close>

lemma log_oracles:
  "shlex_split (log l m as w) = shlex_split w"
  "popen (log l m as w) = popen w"
  by (simp_all add: log_def emit_def)

lemma managed_add_simps:
  "clock (managed_add p w) = clock w"
  "trace (managed_add p w) = trace w"
  "alive (managed_add p w) = alive w"
  "children (managed_add p w) = children w"
  "MANAGED_PIDS (managed_add p w) = insert p (MANAGED_PIDS w)"
  by (simp_all add: managed_add_def)

lemma tick_simps:
  "clock (tick w) = clock w + 1"
  "trace (tick w) = trace w"
  "alive (tick w) = alive w"
  "MANAGED_PIDS (tick w) = MANAGED_PIDS w"
  by (simp_all add: tick_def)

lemma ticks_simps:
  "clock ((tick ^^ k) w) = clock w + k"
  "trace ((tick ^^ k) w) = trace w"
  "alive ((tick ^^ k) w) = alive w"
  "MANAGED_PIDS ((tick ^^ k) w) = MANAGED_PIDS w"
  by (induction k) (simp_all add: tick_simps)

lemma boot_wait_expired:
  assumes "\<forall>j<b. alive w (clock w + j) p"
  shows "timeout b (\<lambda>w. Inr (\<not> running w p)) tick w = (Inl TimeoutError, (tick ^^ b) w)"
proof -
  define fin :: "world \<Rightarrow> error + bool" where "fin = (\<lambda>w. Inr (\<not> running w p))"
  have "\<forall>j<b. fin ((tick ^^ j) w) = Inr False"
    using assms by (simp add: fin_def running_def ticks_simps)
  then have "timeout b fin tick w = (Inl TimeoutError, (tick ^^ b) w)"
    by (rule timeout_expired)
  then show ?thesis by (simp add: fin_def)
qed

text \<open>
  C2, as the code has it. When \<^verbatim>\<open>spawn\<close> has launched process \<open>p\<close> and \<open>p\<close> is
  still running throughout the \<open>boot_timeout\<close> seconds, \<^verbatim>\<open>spawn\<close> returns
  \<^verbatim>\<open>False\<close> when the deadline ends, having sent SIGTERM to \<open>p\<close> if \<open>p\<close> is
  still running then (and no signal otherwise), and the registry still contains \<open>p\<close>:
  it is removed only after a successful daemonization.
\<close>

theorem spawn_boot_timeout:
  assumes "resolve_cmd h = Some (Inr cmd)"
    and "shlex_split w cmd = Inr argv"
    and "popen w argv = Inr p"
    and "\<forall>j<boot_timeout h. alive w (clock w + j) p"
  shows "fst (spawn h w) = Inr False \<and>
         p \<in> MANAGED_PIDS (snd (spawn h w)) \<and>
         clock (snd (spawn h w)) = clock w + boot_timeout h \<and>
         signals_of (new_events w (snd (spawn h w))) =
           (if alive w (clock w + boot_timeout h) p
            then [(clock w + boot_timeout h, p, SIGTERM)] else [])"
proof -
  let ?w1 = "log Debug ''Calling %s: %s'' [S (unicorn h), S cmd] w"
  let ?w2 = "managed_add p ?w1"
  have "\<forall>j<boot_timeout h. alive ?w2 (clock ?w2 + j) p"
    using assms(4) by (simp add: managed_add_simps log_simps)
  then have t: "timeout (boot_timeout h) (\<lambda>w. Inr (\<not> running w p)) tick ?w2 =
      (Inl TimeoutError, (tick ^^ boot_timeout h) ?w2)"
    by (rule boot_wait_expired)
  show ?thesis
    using assms(1-3) t
    by (simp add: spawn_def Let_def log_oracles running_def terminate_def emit_def
          new_events_def ticks_simps managed_add_simps log_simps)
qed

theorem spawn_boot_timeout_witness:
  "fst (spawn h_fresh w_hang) = Inr False \<and>
   100 \<in> MANAGED_PIDS (snd (spawn h_fresh w_hang)) \<and>
   clock (snd (spawn h_fresh w_hang)) = 3 \<and>
   signals_of (new_events w_hang (snd (spawn h_fresh w_hang))) = [(3, 100, SIGTERM)] \<and>
   fst (spawn h_fresh w_late) = Inr False \<and>
   100 \<in> MANAGED_PIDS (snd (spawn h_fresh w_late)) \<and>
   signals_of (new_events w_late (snd (spawn h_fresh w_late))) = []"
proof -
  have a: "resolve_cmd h_fresh = Some (Inr ''gunicorn -D -p \"gunicorn.pid\" '')"
    by (simp add: resolve_cmd_def h_fresh_def COMMANDS_def)
  have b: "shlex_split w ''gunicorn -D -p \"gunicorn.pid\" '' =
             Inr [''gunicorn'', ''-D'', ''-p'', ''gunicorn.pid'']"
    if "w = w_hang \<or> w = w_late" for w
    using that by (auto simp: w_late_def w_hang_def w_idle_def)
  have c: "popen w [''gunicorn'', ''-D'', ''-p'', ''gunicorn.pid''] = Inr 100"
    if "w = w_hang \<or> w = w_late" for w
    using that by (auto simp: w_late_def w_hang_def w_idle_def)
  have d: "\<forall>j<boot_timeout h_fresh. alive w (clock w + j) 100"
    if "w = w_hang \<or> w = w_late" for w
    using that by (auto simp: w_late_def w_hang_def w_idle_def h_fresh_def)
  have f: "boot_timeout h_fresh = 3" "clock w_hang = 0" "clock w_late = 0"
    "alive w_hang 3 100" "\<not> alive w_late 3 100"
    by (simp_all add: w_late_def w_hang_def w_idle_def h_fresh_def)
  show ?thesis
    using spawn_boot_timeout [OF a b c d, of w_hang]
          spawn_boot_timeout [OF a b c d, of w_late]
    by (simp add: f)
qed

text \<open>
  C2, as it is stated, fails: after a boot timeout the registry does contain the PID of
  the foreground process.
\<close>

theorem spawn_boot_timeout_keeps_pid:
  "fst (spawn h_fresh w_hang) = Inr False \<and>
   100 \<in> MANAGED_PIDS (snd (spawn h_fresh w_hang)) \<and>
   signals_of (new_events w_hang (snd (spawn h_fresh w_hang))) = [(3, 100, SIGTERM)]"
  by (simp add: spawn_def resolve_cmd_def h_fresh_def COMMANDS_def w_hang_def w_idle_def
        Let_def log_def emit_def managed_add_def running_def tick_def terminate_def
        new_events_def eval_nat_numeral)

subsection \<open>What the handover and the pidfile read leave alone\<close>

lemma kill_old_master_managed:
  "MANAGED_PIDS (snd (kill_old_master p w)) = MANAGED_PIDS w"
  by (simp add: kill_old_master_def send_signal_def log_def emit_def sleep_def)

lemma kill_old_master_clock:
  "fst (kill_old_master p w) = Inr () \<Longrightarrow> clock (snd (kill_old_master p w)) = clock w + 1"
  by (simp add: kill_old_master_def send_signal_def log_def emit_def sleep_def running_def
        split: if_splits)

lemma kill_old_master_running:
  "fst (kill_old_master p w) = Inr () \<Longrightarrow> running w p"
  by (simp add: kill_old_master_result running_def split: if_splits)

declare read_pidfile_loop.simps [simp del]

lemma read_pidfile_loop_found:
  "pidfile_pid w (clock w) = Some p \<Longrightarrow> read_pidfile_loop h start w = (Inr (Some p), w)"
  by (subst read_pidfile_loop.simps) simp

lemma read_pidfile_loop_expected:
  "pidfile_pid w (clock w) = None \<Longrightarrow> terminating h \<Longrightarrow>
   read_pidfile_loop h start w = (Inr None, w)"
  by (subst read_pidfile_loop.simps) simp

lemma read_pidfile_loop_retry:
  "pidfile_pid w (clock w) = None \<Longrightarrow> \<not> terminating h \<Longrightarrow>
   read_pidfile_loop h start w =
     (if int (clock w) + 1 - int start > int (pidfile_timeout h)
      then (Inl (HerderError ''Failed to read pidfile %s after %s seconds, aborting!''
              [S (pidfile h), N (int (pidfile_timeout h))]),
            sleep 1
              (log Debug ''This is usually not fatal. Retrying in a moment...'' []
                 (log Debug ''Got an error while attempting to read pidfile: %s''
                    [S ''PidfileError''] w)))
      else read_pidfile_loop h start
             (sleep 1
                (log Debug ''This is usually not fatal. Retrying in a moment...'' []
                   (log Debug ''Got an error while attempting to read pidfile: %s''
                      [S ''PidfileError''] w))))"
  by (subst read_pidfile_loop.simps) (simp add: Let_def sleep_simps log_simps)

lemma read_pidfile_loop_managed:
  "MANAGED_PIDS (snd (read_pidfile_loop h start w)) = MANAGED_PIDS w"
proof (induction h start w rule: read_pidfile_loop.induct)
  case (1 h start w)
  show ?case
  proof (cases "pidfile_pid w (clock w)")
    case (Some p)
    then show ?thesis by (simp add: read_pidfile_loop_found)
  next
    case None
    show ?thesis
    proof (cases "terminating h")
      case True
      with None show ?thesis by (simp add: read_pidfile_loop_expected)
    next
      case False
      from "1.IH" [OF None False refl] None False show ?thesis
        by (simp add: read_pidfile_loop_retry sleep_simps log_simps)
    qed
  qed
qed

lemma read_pidfile_managed: "MANAGED_PIDS (snd (read_pidfile h w)) = MANAGED_PIDS w"
  by (simp add: read_pidfile_def read_pidfile_loop_managed)

text \<open>A pidfile that stays unreadable: the read is retried until the timeout has passed.\<close>

lemma read_pidfile_loop_gives_up:
  "\<not> terminating h \<Longrightarrow> start \<le> clock w \<Longrightarrow> clock w \<le> start + pidfile_timeout h \<Longrightarrow>
   \<forall>t. clock w \<le> t \<and> t \<le> start + pidfile_timeout h \<longrightarrow> pidfile_pid w t = None \<Longrightarrow>
   fst (read_pidfile_loop h start w) =
     Inl (HerderError ''Failed to read pidfile %s after %s seconds, aborting!''
              [S (pidfile h), N (int (pidfile_timeout h))]) \<and>
   clock (snd (read_pidfile_loop h start w)) = start + pidfile_timeout h + 1"
proof (induction h start w rule: read_pidfile_loop.induct)
  case (1 h start w)
  from "1.prems" have None: "pidfile_pid w (clock w) = None" by simp
  note nt = \<open>\<not> terminating h\<close>
  show ?case
  proof (cases "int (clock w) + 1 - int start > int (pidfile_timeout h)")
    case True
    with "1.prems" have "clock w = start + pidfile_timeout h" by linarith
    with True None nt show ?thesis
      by (simp add: read_pidfile_loop_retry sleep_simps log_simps)
  next
    case False
    let ?w1 = "sleep 1
                (log Debug ''This is usually not fatal. Retrying in a moment...'' []
                   (log Debug ''Got an error while attempting to read pidfile: %s''
                      [S ''PidfileError''] w))"
    have c: "clock ?w1 = clock w + 1" by (simp add: sleep_simps log_simps)
    have g: "\<not> int (clock ?w1) - int start > int (pidfile_timeout h)"
      using False c by simp
    have p: "pidfile_pid ?w1 = pidfile_pid w" by (simp add: sleep_simps log_simps)
    have "fst (read_pidfile_loop h start ?w1) =
            Inl (HerderError ''Failed to read pidfile %s after %s seconds, aborting!''
              [S (pidfile h), N (int (pidfile_timeout h))]) \<and>
          clock (snd (read_pidfile_loop h start ?w1)) = start + pidfile_timeout h + 1"
    proof (rule "1.IH" [OF None nt refl g nt])
      show "start \<le> clock ?w1" using "1.prems"(2) c by simp
      show "clock ?w1 \<le> start + pidfile_timeout h" using False c by linarith
      show "\<forall>t. clock ?w1 \<le> t \<and> t \<le> start + pidfile_timeout h \<longrightarrow> pidfile_pid ?w1 t = None"
        using "1.prems"(4) c p by simp
    qed
    with False None nt show ?thesis by (simp add: read_pidfile_loop_retry)
  qed
qed

lemma signals_of_append: "signals_of (xs @ ys) = signals_of xs @ signals_of ys"
  by (induction xs rule: signals_of.induct) simp_all

lemma signals_of_sleeps: "signals_of (map (\<lambda>j. (f j, Sleep n)) js) = []"
  by (induction js) simp_all

text \<open>
  The wait when both masters stay alive and the overlap is not negative: it returns,
  sends no signal, and leaves the registry and the process table as they are.
\<close>

lemma wait_for_workers_live:
  assumes "alive w (clock w) old"
    and "\<forall>j<mwt. alive w (clock w + j) new"
    and "0 \<le> ov"
  shows "\<exists>w4 es. wait_for_workers ov mwt new old w = (Inr (), w4) \<and>
           MANAGED_PIDS w4 = MANAGED_PIDS w \<and> alive w4 = alive w \<and> clock w \<le> clock w4 \<and>
           trace w4 = trace w @ es \<and> signals_of es = []"
proof -
  define e where "e = max (int (children w (clock w) old) - 1) 1"
  consider (E) "\<forall>j<mwt. int (children w (clock w + j) new) < e"
    | (R) k where "k < mwt" "e \<le> int (children w (clock w + k) new)"
        "\<forall>j<k. int (children w (clock w + j) new) < e"
    using first_time [of mwt "\<lambda>j. e \<le> int (children w (clock w + j) new)"]
    by (auto simp: not_le)
  then show ?thesis
  proof cases
    case E
    then show ?thesis
      unfolding e_def
      by (simp add: wait_for_workers_expired [OF assms(1,2)] log_simps sleeps_trace
            sleeps_managed sleeps_alive sleeps_clock signals_of_append signals_of_sleeps)
  next
    case (R k)
    have "\<forall>j\<le>k. alive w (clock w + j) new" using assms(2) R(1) by simp
    from wait_for_workers_reached [OF assms(1) this R(3) [unfolded e_def] R(1) R(2) [unfolded e_def], of ov]
      assms(3)
    show ?thesis
      by (simp add: sleep_simps log_simps sleeps_trace sleeps_managed sleeps_alive sleeps_clock
            signals_of_append signals_of_sleeps)
  qed
qed

subsection \<open>A change of master\<close>

text \<open>
  A round of the monitor loop that reads, with master \<open>old\<close> tracked and registered,
  the PID \<open>new \<noteq> old\<close> of a live process, when (if a reload was requested) both
  masters stay alive and the overlap is not negative: it returns \<^verbatim>\<open>True\<close>, tracks
  \<open>new\<close>, leaves \<open>reloading\<close> cleared, and has added \<open>new\<close> to the registry and
  removed \<open>old\<close> from it. If \<open>reloading\<close> was set the handover ran: the round lasted
  until the wait for the workers was over (\<open>w4\<close> is the world then) and one second
  more, and sent WINCH and QUIT to \<open>old\<close>. If it was not set, the round took no time
  and did nothing but log the change.
\<close>

lemma loop_inner_master_change:
  fixes h :: herder and w w1 :: world and old new :: pid
  defines "w3 \<equiv> managed_add new
                   (log Info ''%s changed PID (was %s, now %s)''
                      [S (unicorn h), N (int old), N (int new)] w1)"
  defines "w4 \<equiv> snd (wait_for_workers (overlap h) (max_worker_wait_time h) new old w3)"
  defines "h' \<equiv> fst (snd (loop_inner h w))" and "w' \<equiv> snd (snd (loop_inner h w))"
  assumes old: "master h = Some old"
    and rd: "read_pidfile h w = (Inr (Some new), w1)"
    and run: "running w1 new"
    and neq: "new \<noteq> old"
    and mem: "old \<in> MANAGED_PIDS w"
    and live: "reloading h \<Longrightarrow>
                 0 \<le> overlap h \<and> (\<forall>t\<ge>clock w1. alive w1 t old \<and> alive w1 t new)"
  shows "fst (loop_inner h w) = Inr True \<and> master h' = Some new \<and> \<not> reloading h' \<and>
         MANAGED_PIDS w' = insert new (MANAGED_PIDS w) - {old} \<and>
         (reloading h \<longrightarrow>
            clock w' = clock w4 + 1 \<and>
            signals_of (new_events w1 w') =
              [(clock w4, old, SIGWINCH), (clock w4 + 1, old, SIGQUIT)]) \<and>
         (\<not> reloading h \<longrightarrow>
            clock w' = clock w1 \<and>
            new_events w1 w' =
              [(clock w1, Log Info ''%s changed PID (was %s, now %s)''
                            [S (unicorn h), N (int old), N (int new)])])"
proof -
  have m1: "MANAGED_PIDS w1 = MANAGED_PIDS w"
    using read_pidfile_managed [of h w] rd by simp
  have m3: "MANAGED_PIDS w3 = insert new (MANAGED_PIDS w)"
    by (simp add: w3_def managed_add_simps log_simps m1)
  have t3: "trace w3 = trace w1 @ [(clock w1, Log Info ''%s changed PID (was %s, now %s)''
                            [S (unicorn h), N (int old), N (int new)])]"
    by (simp add: w3_def managed_add_simps log_simps)
  have c3: "clock w3 = clock w1" by (simp add: w3_def managed_add_simps log_simps)
  have a3: "alive w3 = alive w1" by (simp add: w3_def managed_add_simps log_simps)
  show ?thesis
  proof (cases "reloading h")
    case False
    have li: "loop_inner h w =
        (case managed_remove old w3 of
           (Inl e, w6) \<Rightarrow> (Inl e, h\<lparr>master := Some new\<rparr>, w6)
         | (Inr u, w6) \<Rightarrow> (Inr True, h\<lparr>master := Some new\<rparr>, w6))"
      using old rd run neq False by (simp add: loop_inner_def Let_def w3_def)
    have "old \<in> MANAGED_PIDS w3" using mem m3 by simp
    with li have "loop_inner h w =
        (Inr True, h\<lparr>master := Some new\<rparr>, w3\<lparr>MANAGED_PIDS := MANAGED_PIDS w3 - {old}\<rparr>)"
      by (simp add: managed_remove_def)
    with False m3 t3 c3 show ?thesis
      by (simp add: h'_def w'_def new_events_def)
  next
    case True
    from live [OF True] have ov: "0 \<le> overlap h"
      and al: "\<And>t. clock w1 \<le> t \<Longrightarrow> alive w1 t old \<and> alive w1 t new" by simp_all
    have "alive w3 (clock w3) old" using al [of "clock w1"] by (simp add: a3 c3)
    moreover have "\<forall>j<max_worker_wait_time h. alive w3 (clock w3 + j) new"
      using al by (simp add: a3 c3)
    ultimately obtain w4' es where
      wt': "wait_for_workers (overlap h) (max_worker_wait_time h) new old w3 = (Inr (), w4')"
      and f4: "MANAGED_PIDS w4' = MANAGED_PIDS w3" "alive w4' = alive w3" "clock w3 \<le> clock w4'"
        "trace w4' = trace w3 @ es" "signals_of es = []"
      using wait_for_workers_live [of w3 old "max_worker_wait_time h" new "overlap h"] ov
      by blast
    have w4: "w4' = w4" using wt' by (simp add: w4_def)
    note wt = wt' [unfolded w4] and f4 = f4 [unfolded w4]
    have k: "fst (kill_old_master old w4) = Inr ()"
      using al [of "clock w4"] al [of "clock w4 + 1"] f4(2,3)
      by (simp add: kill_old_master_result a3 c3)
    obtain w5 where kl: "kill_old_master old w4 = (Inr (), w5)"
      using k by (cases "kill_old_master old w4") simp
    have m5: "MANAGED_PIDS w5 = MANAGED_PIDS w4"
      using kill_old_master_managed [of old w4] kl by simp
    have "old \<in> MANAGED_PIDS w5" using mem m3 m5 f4(1) by simp
    then have res: "loop_inner h w =
        (Inr True, h\<lparr>master := Some new, reloading := False\<rparr>,
         w5\<lparr>MANAGED_PIDS := MANAGED_PIDS w5 - {old}\<rparr>)"
      using old rd run neq True wt kl
      by (simp add: loop_inner_def Let_def w3_def [symmetric] managed_remove_def)
    have c5: "clock w5 = clock w4 + 1" using kill_old_master_clock [OF k] kl by simp
    have t5: "trace w5 = trace w4 @
        [(clock w4, Log Debug ''Sending WINCH to old master (PID %s)'' [N (int old)]),
         (clock w4, SendSignal old SIGWINCH), (clock w4, Sleep 1),
         (clock w4 + 1, Log Debug ''Sending QUIT to old master (PID %s)'' [N (int old)]),
         (clock w4 + 1, SendSignal old SIGQUIT)]"
      using kill_old_master_trace [of old w4] kill_old_master_running [OF k] kl by simp
    have "signals_of (new_events w1 w5) =
            [(clock w4, old, SIGWINCH), (clock w4 + 1, old, SIGQUIT)]"
      by (simp add: new_events_def t5 f4 t3 signals_of_append)
    with res True m3 m5 f4(1) c5 show ?thesis
      by (simp add: h'_def w'_def new_events_def)
  qed
qed

text \<open>
  C4. A round of the monitor loop that observes the change of master from 7 to 8 with
  \<open>reloading\<close> set, when the old master exits during the wait for the workers: the
  NoSuchProcess of the first \<^verbatim>\<open>send_signal\<close> leaves the round, so \<open>reloading\<close>
  is not cleared and the PID of the old master is not removed from the registry.
\<close>

theorem loop_inner_handover_raises:
  "master h_reloading = Some 7 \<and> reloading h_reloading \<and>
   read_pidfile h_reloading w_dies = (Inr (Some 8), w_dies) \<and> running w_dies 8 \<and>
   fst (loop_inner h_reloading w_dies) = Inl (NoSuchProcess 7) \<and>
   reloading (fst (snd (loop_inner h_reloading w_dies))) \<and>
   MANAGED_PIDS (snd (snd (loop_inner h_reloading w_dies))) = {7, 8}"
  by (simp add: loop_inner_def read_pidfile_def read_pidfile_loop_found h_reloading_def
        h_fresh_def w_dies_def w_fork_def w_reload_def w_serving_def w_idle_def Let_def
        running_def managed_add_def log_def emit_def wait_for_workers_def num_children_def
        sleep_def kill_old_master_def send_signal_def managed_remove_def eval_nat_numeral
        insert_commute)

subsection \<open>How the monitor loop ends\<close>

lemma loop_status: "fst (loop n h w) = Some (Inr s) \<Longrightarrow> s = 1"
proof (induction n arbitrary: h w)
  case 0
  then show ?case by simp
next
  case (Suc n)
  obtain r h1 w1 where li: "loop_inner h w = (r, h1, w1)" by (cases "loop_inner h w")
  show ?case
  proof (cases r)
    case (Inl e)
    with li Suc.prems show ?thesis by simp
  next
    case (Inr b)
    show ?thesis
    proof (cases b)
      case True
      with Inr li Suc.prems have "fst (loop n h1 (sleep 2 w1)) = Some (Inr s)" by simp
      then show ?thesis by (rule Suc.IH)
    next
      case False
      with Inr li Suc.prems show ?thesis by simp
    qed
  qed
qed

text \<open>
  C1, as the code has it. When \<open>terminating\<close> is set and the pidfile cannot be read,
  the loop ends without raising: it logs the death and returns status 1. It returns the
  same status 1 when the PID read names no live process, whatever \<open>terminating\<close>
  is. When \<open>terminating\<close> is not set and the pidfile stays unreadable for
  \<open>pidfile_timeout\<close> seconds, the loop ends by the HerderError instead of a status.
  Every status the loop returns is 1.
\<close>

theorem loop_exit:
  "(terminating h \<and> pidfile_pid w (clock w) = None \<longrightarrow>
      loop (Suc n) h w = (Some (Inr 1), h, log Error ''%s died. Exiting.'' [S (unicorn h)] w)) \<and>
   (\<forall>p w1. read_pidfile h w = (Inr (Some p), w1) \<and> \<not> running w1 p \<longrightarrow>
      fst (loop (Suc n) h w) = Some (Inr 1)) \<and>
   (\<not> terminating h \<and>
    (\<forall>t. clock w \<le> t \<and> t \<le> clock w + pidfile_timeout h \<longrightarrow> pidfile_pid w t = None) \<longrightarrow>
      fst (loop (Suc n) h w) =
        Some (Inl (HerderError ''Failed to read pidfile %s after %s seconds, aborting!''
                     [S (pidfile h), N (int (pidfile_timeout h))]))) \<and>
   (\<forall>s. fst (loop n h w) = Some (Inr s) \<longrightarrow> s = 1)"
proof (intro conjI impI allI)
  assume "terminating h \<and> pidfile_pid w (clock w) = None"
  then have "read_pidfile h w = (Inr None, w)"
    by (simp add: read_pidfile_def read_pidfile_loop_expected)
  then have "loop_inner h w = (Inr False, h, w)" by (simp add: loop_inner_def)
  then show "loop (Suc n) h w =
      (Some (Inr 1), h, log Error ''%s died. Exiting.'' [S (unicorn h)] w)" by simp
next
  fix p w1
  assume "read_pidfile h w = (Inr (Some p), w1) \<and> \<not> running w1 p"
  then have "loop_inner h w = (Inr False, h, w1)" by (simp add: loop_inner_def)
  then show "fst (loop (Suc n) h w) = Some (Inr 1)" by simp
next
  assume a: "\<not> terminating h \<and>
    (\<forall>t. clock w \<le> t \<and> t \<le> clock w + pidfile_timeout h \<longrightarrow> pidfile_pid w t = None)"
  then have "fst (read_pidfile_loop h (clock w) w) =
      Inl (HerderError ''Failed to read pidfile %s after %s seconds, aborting!''
             [S (pidfile h), N (int (pidfile_timeout h))])"
    using read_pidfile_loop_gives_up [of h "clock w" w] by simp
  then obtain w1 where "read_pidfile h w =
      (Inl (HerderError ''Failed to read pidfile %s after %s seconds, aborting!''
              [S (pidfile h), N (int (pidfile_timeout h))]), w1)"
    by (cases "read_pidfile_loop h (clock w) w") (simp add: read_pidfile_def)
  then have "loop_inner h w =
      (Inl (HerderError ''Failed to read pidfile %s after %s seconds, aborting!''
              [S (pidfile h), N (int (pidfile_timeout h))]), h, w1)"
    by (simp add: loop_inner_def)
  then show "fst (loop (Suc n) h w) =
      Some (Inl (HerderError ''Failed to read pidfile %s after %s seconds, aborting!''
                   [S (pidfile h), N (int (pidfile_timeout h))]))" by simp
next
  fix s assume "fst (loop n h w) = Some (Inr s)"
  then show "s = 1" by (rule loop_status)
qed

theorem loop_exit_witness:
  "loop (Suc 0) h_stopping w_stopped =
     (Some (Inr 1), h_stopping, log Error ''%s died. Exiting.'' [S ''gunicorn''] w_stopped) \<and>
   fst (loop (Suc 0) h_tracking w_died) = Some (Inr 1) \<and>
   fst (loop (Suc 0) h_tracking w_stopped) =
     Some (Inl (HerderError ''Failed to read pidfile %s after %s seconds, aborting!''
                  [S ''gunicorn.pid'', N 2]))"
proof -
  have a: "terminating h_stopping \<and> pidfile_pid w_stopped (clock w_stopped) = None"
    by (simp add: h_stopping_def h_fresh_def w_stopped_def w_idle_def)
  have b: "read_pidfile h_tracking w_died = (Inr (Some 7), w_died) \<and> \<not> running w_died 7"
    by (simp add: read_pidfile_def read_pidfile_loop_found running_def w_died_def w_idle_def)
  have c: "\<not> terminating h_tracking \<and>
    (\<forall>t. clock w_stopped \<le> t \<and> t \<le> clock w_stopped + pidfile_timeout h_tracking \<longrightarrow>
         pidfile_pid w_stopped t = None)"
    by (simp add: h_tracking_def h_fresh_def w_stopped_def w_idle_def)
  have f: "unicorn h_stopping = ''gunicorn''" "pidfile h_tracking = ''gunicorn.pid''"
    "pidfile_timeout h_tracking = 2"
    by (simp_all add: h_stopping_def h_tracking_def h_fresh_def)
  show ?thesis
    using loop_exit [of h_stopping w_stopped 0] loop_exit [of h_tracking w_died 0]
          loop_exit [of h_tracking w_stopped 0] a b c
    by (simp add: f)
qed

text \<open>
  C1, as it is stated, fails: the exit on an expected shutdown has status 1, not 0, and
  it is the status of an unexpected death too.
\<close>

theorem loop_status_not_distinguished:
  "terminating h_stopping \<and> pidfile_pid w_stopped (clock w_stopped) = None \<and>
   fst (loop (Suc 0) h_stopping w_stopped) = Some (Inr 1) \<and>
   \<not> terminating h_tracking \<and>
   fst (loop (Suc 0) h_tracking w_died) = Some (Inr 1)"
  by (simp add: loop_inner_def read_pidfile_def read_pidfile_loop_found
        read_pidfile_loop_expected running_def h_stopping_def h_tracking_def h_fresh_def
        w_stopped_def w_died_def w_idle_def)

end
